theory Spec2Isabelle
  imports Main
begin

unbundle bit_operations_syntax

section \<open>Python values decoded from JSON\<close>

text \<open>
  The client works on whatever \<^verbatim>\<open>response.json()\<close> decodes: \<^verbatim>\<open>None\<close>, booleans, integers,
  strings, lists and dictionaries with string keys. A dictionary is an association list
  holding each key once, in insertion order. Numbers with a fraction or an exponent
  (Python floats) are outside this model, and strings are ASCII text.
\<close>

datatype pyval =
    PNone
  | PBool bool
  | PInt int
  | PStr string
  | PList "pyval list"
  | PDict "(string \<times> pyval) list"

text \<open>
  The exceptions the module can meet. \<^verbatim>\<open>IOError\<close> is \<^verbatim>\<open>OSError\<close> in Python 3, and the
  exceptions of the HTTP library (timeout, connection error, HTTP status error) are its
  subclasses; the argument is what the exception was raised with.
\<close>

datatype py_exception =
    OSError pyval
  | KeyError pyval
  | TypeError
  | AttributeError
  | ValueError

type_synonym 'a result = "py_exception + 'a"

fun is_OSError :: "py_exception \<Rightarrow> bool" where
  "is_OSError (OSError _) = True"
| "is_OSError _ = False"

text \<open>Truth value of an object, as \<^verbatim>\<open>if x\<close>, \<^verbatim>\<open>x and y\<close> test it.\<close>

fun truthy :: "pyval \<Rightarrow> bool" where
  "truthy PNone = False"
| "truthy (PBool b) = b"
| "truthy (PInt i) = (i \<noteq> 0)"
| "truthy (PStr s) = (s \<noteq> [])"
| "truthy (PList xs) = (xs \<noteq> [])"
| "truthy (PDict d) = (d \<noteq> [])"

text \<open>
  The operator \<^verbatim>\<open>==\<close>: \<^verbatim>\<open>True == 1\<close> and \<^verbatim>\<open>False == 0\<close>, lists compare element by element,
  dictionaries as mappings (same number of keys, and every key of the left one bound to
  an equal value in the right one), values of different kinds are unequal.
\<close>

fun py_eq :: "pyval \<Rightarrow> pyval \<Rightarrow> bool"
  and py_eq_list :: "pyval list \<Rightarrow> pyval list \<Rightarrow> bool"
  and py_eq_items :: "(string \<times> pyval) list \<Rightarrow> (string \<times> pyval) list \<Rightarrow> bool" where
  "py_eq PNone PNone = True"
| "py_eq (PBool a) (PBool b) = (a = b)"
| "py_eq (PBool a) (PInt j) = ((if a then 1 else 0) = j)"
| "py_eq (PInt i) (PBool b) = (i = (if b then 1 else 0))"
| "py_eq (PInt i) (PInt j) = (i = j)"
| "py_eq (PStr s) (PStr t) = (s = t)"
| "py_eq (PList xs) (PList ys) = py_eq_list xs ys"
| "py_eq (PDict a) (PDict b) = (length a = length b \<and> py_eq_items a b)"
| "py_eq _ _ = False"
| "py_eq_list [] [] = True"
| "py_eq_list (x # xs) (y # ys) = (py_eq x y \<and> py_eq_list xs ys)"
| "py_eq_list _ _ = False"
| "py_eq_items [] b = True"
| "py_eq_items ((k, v) # a) b =
     (case map_of b k of None \<Rightarrow> False | Some w \<Rightarrow> py_eq v w \<and> py_eq_items a b)"

text \<open>Lists and dictionaries have no hash: using one as a dictionary key raises \<^verbatim>\<open>TypeError\<close>.\<close>

fun hashable :: "pyval \<Rightarrow> bool" where
  "hashable (PList _) = False"
| "hashable (PDict _) = False"
| "hashable _ = True"

text \<open>\<^verbatim>\<open>x[key]\<close> with a string key: only a dictionary can be subscripted so.\<close>

fun getitem :: "pyval \<Rightarrow> string \<Rightarrow> pyval result" where
  "getitem (PDict d) k = (case map_of d k of None \<Rightarrow> Inl (KeyError (PStr k)) | Some v \<Rightarrow> Inr v)"
| "getitem _ k = Inl TypeError"

text \<open>\<^verbatim>\<open>x.get(key)\<close>: a method of dictionaries only; a missing key gives \<^verbatim>\<open>None\<close>.\<close>

fun py_get :: "pyval \<Rightarrow> string \<Rightarrow> pyval result" where
  "py_get (PDict d) k = (case map_of d k of None \<Rightarrow> Inr PNone | Some v \<Rightarrow> Inr v)"
| "py_get _ k = Inl AttributeError"

text \<open>
  \<^verbatim>\<open>d[key] = v\<close> on a dictionary: an existing key keeps its place, a new one goes last.
\<close>

fun dict_set :: "(string \<times> pyval) list \<Rightarrow> string \<Rightarrow> pyval \<Rightarrow> (string \<times> pyval) list" where
  "dict_set [] k v = [(k, v)]"
| "dict_set ((k', v') # d) k v = (if k' = k then (k, v) # d else (k', v') # dict_set d k v)"

fun setitem :: "pyval \<Rightarrow> string \<Rightarrow> pyval \<Rightarrow> pyval result" where
  "setitem (PDict d) k v = Inr (PDict (dict_set d k v))"
| "setitem _ k v = Inl TypeError"

text \<open>\<^verbatim>\<open>for x in v\<close>: the elements of a list, the keys of a dictionary, the characters of a string.\<close>

fun py_iter :: "pyval \<Rightarrow> pyval list result" where
  "py_iter (PList xs) = Inr xs"
| "py_iter (PDict d) = Inr (map (\<lambda>(k, v). PStr k) d)"
| "py_iter (PStr s) = Inr (map (\<lambda>c. PStr [c]) s)"
| "py_iter _ = Inl TypeError"

text \<open>
  \<^verbatim>\<open>'error' in response\<close>: a key test on a dictionary, a membership test on a list, a
  substring test on a string, \<^verbatim>\<open>TypeError\<close> on anything else.
\<close>

fun is_substring :: "string \<Rightarrow> string \<Rightarrow> bool" where
  "is_substring p [] = (p = [])"
| "is_substring p (c # cs) = (take (length p) (c # cs) = p \<or> is_substring p cs)"

fun py_contains :: "pyval \<Rightarrow> string \<Rightarrow> bool result" where
  "py_contains (PDict d) k = Inr (map_of d k \<noteq> None)"
| "py_contains (PList xs) k = Inr (list_ex (\<lambda>x. py_eq x (PStr k)) xs)"
| "py_contains (PStr s) k = Inr (is_substring k s)"
| "py_contains _ k = Inl TypeError"

section \<open>Constants of the module\<close>

definition TURNON :: int where "TURNON = 1"
definition TURNOFF :: int where "TURNOFF = 2"
definition BELL :: int where "BELL = 4"
definition TOGGLE :: int where "TOGGLE = 8"
definition DIM :: int where "DIM = 16"
definition LEARN :: int where "LEARN = 32"
definition UP :: int where "UP = 128"
definition DOWN :: int where "DOWN = 256"
definition STOP :: int where "STOP = 512"
definition RGBW :: int where "RGBW = 1024"
definition THERMOSTAT :: int where "THERMOSTAT = 2048"

definition SUPPORTED_METHODS :: int where
  "SUPPORTED_METHODS = TURNON OR TURNOFF OR DIM OR UP OR DOWN OR STOP"

definition STR_METHODS :: "(int \<times> string) list" where
  "STR_METHODS =
    [(TURNON, ''TURNON''), (TURNOFF, ''TURNOFF''), (BELL, ''BELL''), (TOGGLE, ''TOGGLE''),
     (DIM, ''DIM''), (LEARN, ''LEARN''), (UP, ''UP''), (DOWN, ''DOWN''), (STOP, ''STOP''),
     (RGBW, ''RGBW''), (THERMOSTAT, ''THERMOSTAT'')]"

definition API_METHODS :: "(int \<times> string) list" where
  "API_METHODS =
    [(TURNON, ''device/turnOn''), (TURNOFF, ''device/turnOff''), (DIM, ''device/dim''),
     (UP, ''device/up''), (DOWN, ''device/down''), (STOP, ''device/stop'')]"

section \<open>The client\<close>

text \<open>
  The two caches \<^verbatim>\<open>self._devices\<close> and \<^verbatim>\<open>self._sensors\<close> are dictionaries keyed by the id the
  server gave: association lists whose keys are compared with \<^verbatim>\<open>==\<close>. The third field
  collects what \<^verbatim>\<open>_LOGGER.error\<close> was called with (the debug lines are left out).
\<close>

type_synonym cache = "(pyval \<times> pyval) list"

record client =
  devices_cache :: cache
  sensors_cache :: cache
  error_log :: "py_exception list"

fun cache_get :: "cache \<Rightarrow> pyval \<Rightarrow> pyval option" where
  "cache_get [] k = None"
| "cache_get ((k', r) # m) k = (if py_eq k' k then Some r else cache_get m k)"

fun cache_set :: "cache \<Rightarrow> pyval \<Rightarrow> pyval \<Rightarrow> cache" where
  "cache_set [] k r = [(k, r)]"
| "cache_set ((k', r') # m) k r =
     (if py_eq k' k then (k', r) # m else (k', r') # cache_set m k r)"

text \<open>\<^verbatim>\<open>cache[key]\<close>: \<^verbatim>\<open>TypeError\<close> for a key without a hash, \<^verbatim>\<open>KeyError\<close> for a missing one.\<close>

definition cache_getitem :: "cache \<Rightarrow> pyval \<Rightarrow> pyval result" where
  "cache_getitem m k =
     (if \<not> hashable k then Inl TypeError
      else case cache_get m k of None \<Rightarrow> Inl (KeyError k) | Some r \<Rightarrow> Inr r)"

definition Client_init :: client where
  "Client_init = \<lparr>devices_cache = [], sensors_cache = [], error_log = []\<rparr>"

definition Client_device :: "client \<Rightarrow> pyval \<Rightarrow> pyval result" where
  "Client_device c device_id = cache_getitem (devices_cache c) device_id"

definition Client_sensor :: "client \<Rightarrow> pyval \<Rightarrow> pyval result" where
  "Client_sensor c sensor_id = cache_getitem (sensors_cache c) sensor_id"

text \<open>
  The HTTP session is the environment: for the path below \<^verbatim>\<open>API_URL\<close> and the query
  parameters, either one of \<^verbatim>\<open>get\<close>, \<^verbatim>\<open>raise_for_status\<close>, \<^verbatim>\<open>json\<close> raises, or the body
  decodes to a value.
\<close>

datatype http_outcome = Raises py_exception | Body pyval

type_synonym params = "(string \<times> pyval) list"

type_synonym session = "string \<Rightarrow> params \<Rightarrow> http_outcome"

text \<open>
  \<^verbatim>\<open>Client.request\<close>. Everything happens inside one \<^verbatim>\<open>try\<close> whose handler catches
  \<^verbatim>\<open>(OSError, IOError)\<close>, logs the error and falls off the end of the function, which
  returns \<^verbatim>\<open>None\<close>; any other exception leaves the function.
\<close>

definition request_body :: "session \<Rightarrow> string \<Rightarrow> params \<Rightarrow> pyval result" where
  "request_body get url ps =
     (case get url ps of
        Raises e \<Rightarrow> Inl e
      | Body response \<Rightarrow>
          (case py_contains response ''error'' of
             Inl e \<Rightarrow> Inl e
           | Inr True \<Rightarrow>
               (case getitem response ''error'' of
                  Inl e \<Rightarrow> Inl e
                | Inr payload \<Rightarrow> Inl (OSError payload))
           | Inr False \<Rightarrow> Inr response))"

definition Client_request :: "session \<Rightarrow> string \<Rightarrow> params \<Rightarrow> client \<Rightarrow> pyval result \<times> client" where
  "Client_request get url ps c =
     (case request_body get url ps of
        Inr response \<Rightarrow> (Inr response, c)
      | Inl e \<Rightarrow>
          if is_OSError e then (Inr PNone, c\<lparr>error_log := error_log c @ [e]\<rparr>)
          else (Inl e, c))"

text \<open>\<^verbatim>\<open>Client.execute\<close>: \<^verbatim>\<open>response and response.get('status') == 'success'\<close>.\<close>

definition Client_execute :: "session \<Rightarrow> string \<Rightarrow> params \<Rightarrow> client \<Rightarrow> pyval result \<times> client" where
  "Client_execute get method ps c =
     (case Client_request get method ps c of
        (Inl e, c') \<Rightarrow> (Inl e, c')
      | (Inr response, c') \<Rightarrow>
          if \<not> truthy response then (Inr response, c')
          else (case py_get response ''status'' of
                  Inl e \<Rightarrow> (Inl e, c')
                | Inr status \<Rightarrow> (Inr (PBool (py_eq status (PStr ''success''))), c')))"

text \<open>
  \<^verbatim>\<open>Client.request_devices\<close> and \<^verbatim>\<open>Client.request_sensors\<close>:
  \<^verbatim>\<open>res.get('device') if res else []\<close>.
\<close>

definition devices_list_params :: params where
  "devices_list_params =
     [(''supportedMethods'', PInt SUPPORTED_METHODS), (''includeIgnored'', PInt 0)]"

definition sensors_list_params :: params where
  "sensors_list_params =
     [(''includeValues'', PInt 1), (''includeScale'', PInt 1), (''includeIgnored'', PInt 0)]"

definition Client_request_devices :: "session \<Rightarrow> client \<Rightarrow> pyval result \<times> client" where
  "Client_request_devices get c =
     (case Client_request get ''devices/list'' devices_list_params c of
        (Inl e, c') \<Rightarrow> (Inl e, c')
      | (Inr res, c') \<Rightarrow> (if truthy res then py_get res ''device'' else Inr (PList []), c'))"

definition Client_request_sensors :: "session \<Rightarrow> client \<Rightarrow> pyval result \<times> client" where
  "Client_request_sensors get c =
     (case Client_request get ''sensors/list'' sensors_list_params c of
        (Inl e, c') \<Rightarrow> (Inl e, c')
      | (Inr res, c') \<Rightarrow> (if truthy res then py_get res ''sensor'' else Inr (PList []), c'))"

text \<open>
  The comprehension \<^verbatim>\<open>{x['id']: x for x in xs}\<close>, filling a dictionary from the left: a
  later record with an equal id replaces the earlier one. The first element without an
  \<^verbatim>\<open>'id'\<close>, or with an id that has no hash, ends it with the exception.
\<close>

fun dict_by_id :: "pyval list \<Rightarrow> cache \<Rightarrow> cache result" where
  "dict_by_id [] acc = Inr acc"
| "dict_by_id (x # xs) acc =
     (case getitem x ''id'' of
        Inl e \<Rightarrow> Inl e
      | Inr k \<Rightarrow> if hashable k then dict_by_id xs (cache_set acc k x) else Inl TypeError)"

definition comprehension_by_id :: "pyval \<Rightarrow> cache result" where
  "comprehension_by_id v =
     (case py_iter v of Inl e \<Rightarrow> Inl e | Inr xs \<Rightarrow> dict_by_id xs [])"

text \<open>
  \<^verbatim>\<open>Client.update\<close>: two assignments, each made once its right-hand side has been built.
  An exception in the first leaves both caches as they were, one in the second leaves
  the devices already replaced.
\<close>

definition Client_update :: "session \<Rightarrow> client \<Rightarrow> pyval result \<times> client" where
  "Client_update get c =
     (case Client_request_devices get c of
        (Inl e, c1) \<Rightarrow> (Inl e, c1)
      | (Inr ds, c1) \<Rightarrow>
          (case comprehension_by_id ds of
             Inl e \<Rightarrow> (Inl e, c1)
           | Inr dm \<Rightarrow>
               (case Client_request_sensors get (c1\<lparr>devices_cache := dm\<rparr>) of
                  (Inl e, c2) \<Rightarrow> (Inl e, c2)
                | (Inr ss, c2) \<Rightarrow>
                    (case comprehension_by_id ss of
                       Inl e \<Rightarrow> (Inl e, c2)
                     | Inr sm \<Rightarrow> (Inr PNone, c2\<lparr>sensors_cache := sm\<rparr>)))))"

section \<open>Views\<close>

text \<open>
  A view holds an id and a reference to the client; the client's state is passed to every
  accessor. A \<^verbatim>\<open>DataItem\<close> is only ever built by \<^verbatim>\<open>Sensor.data_items\<close>, from a 3-tuple.
\<close>

datatype Device = Device pyval

datatype Sensor = Sensor pyval

datatype DataItem = DataItem "pyval \<times> pyval \<times> pyval"

text \<open>The properties \<^verbatim>\<open>Client.devices\<close> and \<^verbatim>\<open>Client.sensors\<close>: one view per key, in key order.\<close>

definition Client_devices :: "client \<Rightarrow> Device list" where
  "Client_devices c = map (\<lambda>(device_id, r). Device device_id) (devices_cache c)"

definition Client_sensors :: "client \<Rightarrow> Sensor list" where
  "Client_sensors c = map (\<lambda>(sensor_id, r). Sensor sensor_id) (sensors_cache c)"

subsection \<open>Device\<close>

fun Device_raw :: "Device \<Rightarrow> client \<Rightarrow> pyval result" where
  "Device_raw (Device device_id) c = Client_device c device_id"

fun Device_device_id :: "Device \<Rightarrow> client \<Rightarrow> pyval result" where
  "Device_device_id (Device device_id) c = Inr device_id"

definition Device_field :: "string \<Rightarrow> Device \<Rightarrow> client \<Rightarrow> pyval result" where
  "Device_field k d c = (case Device_raw d c of Inl e \<Rightarrow> Inl e | Inr r \<Rightarrow> getitem r k)"

definition Device_name :: "Device \<Rightarrow> client \<Rightarrow> pyval result" where
  "Device_name = Device_field ''name''"

definition Device_state :: "Device \<Rightarrow> client \<Rightarrow> pyval result" where
  "Device_state = Device_field ''state''"

definition Device_statevalue :: "Device \<Rightarrow> client \<Rightarrow> pyval result" where
  "Device_statevalue = Device_field ''statevalue''"

definition Device_methods :: "Device \<Rightarrow> client \<Rightarrow> pyval result" where
  "Device_methods = Device_field ''methods''"

text \<open>\<^verbatim>\<open>Device.is_on\<close>: \<^verbatim>\<open>self.state == TURNON or self.state == DIM\<close>, the state read again for the second test.\<close>

definition Device_is_on :: "Device \<Rightarrow> client \<Rightarrow> pyval result" where
  "Device_is_on d c =
     (case Device_state d c of
        Inl e \<Rightarrow> Inl e
      | Inr s \<Rightarrow>
          if py_eq s (PInt TURNON) then Inr (PBool True)
          else (case Device_state d c of
                  Inl e \<Rightarrow> Inl e
                | Inr s' \<Rightarrow> Inr (PBool (py_eq s' (PInt DIM)))))"

text \<open>
  The builtin \<^verbatim>\<open>int\<close> on a string: white space around, an optional sign, then decimal digits
  with single underscores allowed between them.
\<close>

definition is_space :: "char \<Rightarrow> bool" where
  "is_space c = (c \<in> set [CHR '' '', CHR 0x09, CHR 0x0A, CHR 0x0B, CHR 0x0C, CHR 0x0D])"

definition is_digit :: "char \<Rightarrow> bool" where
  "is_digit c = (c \<in> set ''0123456789'')"

definition digit_value :: "char \<Rightarrow> int" where
  "digit_value c = int (of_char c) - 48"

fun digits_after_digit :: "int \<Rightarrow> string \<Rightarrow> int option" where
  "digits_after_digit acc [] = Some acc"
| "digits_after_digit acc [c] =
     (if is_digit c then Some (acc * 10 + digit_value c) else None)"
| "digits_after_digit acc (c # c' # cs) =
     (if is_digit c then digits_after_digit (acc * 10 + digit_value c) (c' # cs)
      else if c = CHR ''_'' \<and> is_digit c' then digits_after_digit (acc * 10 + digit_value c') cs
      else None)"

fun unsigned_of_str :: "string \<Rightarrow> int option" where
  "unsigned_of_str [] = None"
| "unsigned_of_str (c # cs) =
     (if is_digit c then digits_after_digit (digit_value c) cs else None)"

definition strip :: "string \<Rightarrow> string" where
  "strip s = rev (dropWhile is_space (rev (dropWhile is_space s)))"

definition int_of_str :: "string \<Rightarrow> int option" where
  "int_of_str s =
     (case strip s of
        [] \<Rightarrow> None
      | c # cs \<Rightarrow>
          if c = CHR ''+'' then unsigned_of_str cs
          else if c = CHR ''-'' then map_option uminus (unsigned_of_str cs)
          else unsigned_of_str (c # cs))"

fun py_int :: "pyval \<Rightarrow> pyval result" where
  "py_int (PInt i) = Inr (PInt i)"
| "py_int (PBool b) = Inr (PInt (if b then 1 else 0))"
| "py_int (PStr s) = (case int_of_str s of None \<Rightarrow> Inl ValueError | Some i \<Rightarrow> Inr (PInt i))"
| "py_int _ = Inl TypeError"

text \<open>\<^verbatim>\<open>Device.dim_level\<close>: the handler catches \<^verbatim>\<open>ValueError\<close> and nothing else.\<close>

definition Device_dim_level :: "Device \<Rightarrow> client \<Rightarrow> pyval result" where
  "Device_dim_level d c =
     (case Device_statevalue d c of
        Inl e \<Rightarrow> (if e = ValueError then Inr PNone else Inl e)
      | Inr sv \<Rightarrow>
          (case py_int sv of
             Inl e \<Rightarrow> (if e = ValueError then Inr PNone else Inl e)
           | Inr i \<Rightarrow> Inr i))"

text \<open>
  \<^verbatim>\<open>Device._execute\<close>: the id goes into the parameters, the endpoint is looked up, and only
  a true answer of \<^verbatim>\<open>Client.execute\<close> stores the command in the cached record and returns
  \<^verbatim>\<open>True\<close>; otherwise the function falls off its end and returns \<^verbatim>\<open>None\<close>.
\<close>

fun Device_execute :: "session \<Rightarrow> Device \<Rightarrow> int \<Rightarrow> params \<Rightarrow> client \<Rightarrow> pyval result \<times> client" where
  "Device_execute get (Device device_id) command ps c =
     (case map_of API_METHODS command of
        None \<Rightarrow> (Inl (KeyError (PInt command)), c)
      | Some api_method \<Rightarrow>
          (case Client_execute get api_method (dict_set ps ''id'' device_id) c of
             (Inl e, c') \<Rightarrow> (Inl e, c')
           | (Inr ok, c') \<Rightarrow>
               if truthy ok then
                 (case Client_device c' device_id of
                    Inl e \<Rightarrow> (Inl e, c')
                  | Inr r \<Rightarrow>
                      (case setitem r ''state'' (PInt command) of
                         Inl e \<Rightarrow> (Inl e, c')
                       | Inr r' \<Rightarrow>
                           (Inr (PBool True),
                            c'\<lparr>devices_cache := cache_set (devices_cache c') device_id r'\<rparr>)))
               else (Inr PNone, c')))"

definition Device_turn_on :: "session \<Rightarrow> Device \<Rightarrow> client \<Rightarrow> pyval result \<times> client" where
  "Device_turn_on get d c = Device_execute get d TURNON [] c"

definition Device_turn_off :: "session \<Rightarrow> Device \<Rightarrow> client \<Rightarrow> pyval result \<times> client" where
  "Device_turn_off get d c = Device_execute get d TURNOFF [] c"

definition Device_dim :: "session \<Rightarrow> Device \<Rightarrow> pyval \<Rightarrow> client \<Rightarrow> pyval result \<times> client" where
  "Device_dim get d level c = Device_execute get d DIM [(''level'', level)] c"

definition Device_up :: "session \<Rightarrow> Device \<Rightarrow> client \<Rightarrow> pyval result \<times> client" where
  "Device_up get d c = Device_execute get d UP [] c"

definition Device_down :: "session \<Rightarrow> Device \<Rightarrow> client \<Rightarrow> pyval result \<times> client" where
  "Device_down get d c = Device_execute get d DOWN [] c"

definition Device_stop :: "session \<Rightarrow> Device \<Rightarrow> client \<Rightarrow> pyval result \<times> client" where
  "Device_stop get d c = Device_execute get d STOP [] c"

subsection \<open>Sensor and DataItem\<close>

fun Sensor_raw :: "Sensor \<Rightarrow> client \<Rightarrow> pyval result" where
  "Sensor_raw (Sensor sensor_id) c = Client_sensor c sensor_id"

fun Sensor_sensor_id :: "Sensor \<Rightarrow> client \<Rightarrow> pyval result" where
  "Sensor_sensor_id (Sensor sensor_id) c = Inr sensor_id"

definition Sensor_name :: "Sensor \<Rightarrow> client \<Rightarrow> pyval result" where
  "Sensor_name s c = (case Sensor_raw s c of Inl e \<Rightarrow> Inl e | Inr r \<Rightarrow> getitem r ''name'')"

definition Sensor_data :: "Sensor \<Rightarrow> client \<Rightarrow> pyval result" where
  "Sensor_data s c = (case Sensor_raw s c of Inl e \<Rightarrow> Inl e | Inr r \<Rightarrow> getitem r ''data'')"

fun DataItem_sensor_id :: "DataItem \<Rightarrow> client \<Rightarrow> pyval result" where
  "DataItem_sensor_id (DataItem (sensor_id, name, scale)) c = Inr sensor_id"

fun DataItem_name :: "DataItem \<Rightarrow> client \<Rightarrow> pyval result" where
  "DataItem_name (DataItem (sensor_id, name, scale)) c = Inr name"

fun DataItem_scale :: "DataItem \<Rightarrow> client \<Rightarrow> pyval result" where
  "DataItem_scale (DataItem (sensor_id, name, scale)) c = Inr scale"

fun DataItem_sensor :: "DataItem \<Rightarrow> Sensor" where
  "DataItem_sensor (DataItem (sensor_id, name, scale)) = Sensor sensor_id"

text \<open>
  \<^verbatim>\<open>Sensor.data_items\<close>: one \<^verbatim>\<open>DataItem\<close> per entry of \<^verbatim>\<open>data\<close>, each needing the entry's
  \<^verbatim>\<open>'name'\<close> and \<^verbatim>\<open>'scale'\<close>.
\<close>

fun items_of :: "pyval \<Rightarrow> pyval list \<Rightarrow> DataItem list result" where
  "items_of sensor_id [] = Inr []"
| "items_of sensor_id (item # rest) =
     (case getitem item ''name'' of
        Inl e \<Rightarrow> Inl e
      | Inr n \<Rightarrow>
          (case getitem item ''scale'' of
             Inl e \<Rightarrow> Inl e
           | Inr s \<Rightarrow>
               (case items_of sensor_id rest of
                  Inl e \<Rightarrow> Inl e
                | Inr ds \<Rightarrow> Inr (DataItem (sensor_id, n, s) # ds))))"

fun Sensor_data_items :: "Sensor \<Rightarrow> client \<Rightarrow> DataItem list result" where
  "Sensor_data_items (Sensor sensor_id) c =
     (case Sensor_data (Sensor sensor_id) c of
        Inl e \<Rightarrow> Inl e
      | Inr data \<Rightarrow>
          (case py_iter data of Inl e \<Rightarrow> Inl e | Inr xs \<Rightarrow> items_of sensor_id xs))"

text \<open>
  \<^verbatim>\<open>DataItem.value\<close>: \<^verbatim>\<open>next\<close> of a generator with default \<^verbatim>\<open>None\<close>. The generator walks
  the sensor's \<^verbatim>\<open>data\<close>, tests \<^verbatim>\<open>item['name'] == self.name and item['scale'] == self.scale\<close>
  and yields \<^verbatim>\<open>item['value']\<close> of the first entry that passes; later entries are never
  looked at.
\<close>

fun first_value :: "pyval \<Rightarrow> pyval \<Rightarrow> pyval list \<Rightarrow> pyval result" where
  "first_value name scale [] = Inr PNone"
| "first_value name scale (item # rest) =
     (case getitem item ''name'' of
        Inl e \<Rightarrow> Inl e
      | Inr n \<Rightarrow>
          if py_eq n name then
            (case getitem item ''scale'' of
               Inl e \<Rightarrow> Inl e
             | Inr s \<Rightarrow>
                 if py_eq s scale then getitem item ''value''
                 else first_value name scale rest)
          else first_value name scale rest)"

fun DataItem_value :: "DataItem \<Rightarrow> client \<Rightarrow> pyval result" where
  "DataItem_value (DataItem (sensor_id, name, scale)) c =
     (case Sensor_data (Sensor sensor_id) c of
        Inl e \<Rightarrow> Inl e
      | Inr data \<Rightarrow>
          (case py_iter data of Inl e \<Rightarrow> Inl e | Inr xs \<Rightarrow> first_value name scale xs))"

section \<open>What the specification says, in its own words\<close>

text \<open>
  An entry of a sensor's \<^verbatim>\<open>data\<close> as the data model has it: a dictionary with the fields
  \<^verbatim>\<open>name\<close>, \<^verbatim>\<open>scale\<close> and \<^verbatim>\<open>value\<close>.
\<close>

fun entry_wf :: "pyval \<Rightarrow> bool" where
  "entry_wf (PDict d) =
     (map_of d ''name'' \<noteq> None \<and> map_of d ''scale'' \<noteq> None \<and> map_of d ''value'' \<noteq> None)"
| "entry_wf _ = False"

text \<open>An entry matches a data item when its name and its scale both equal the item's.\<close>

definition entry_matches :: "pyval \<Rightarrow> pyval \<Rightarrow> pyval \<Rightarrow> bool" where
  "entry_matches name scale item =
     (case getitem item ''name'' of
        Inl e \<Rightarrow> False
      | Inr n \<Rightarrow>
          (case getitem item ''scale'' of
             Inl e \<Rightarrow> False
           | Inr s \<Rightarrow> py_eq n name \<and> py_eq s scale))"

text \<open>The value of a data item by the specification: that of the first matching entry, or absent.\<close>

definition spec_value :: "pyval \<Rightarrow> pyval \<Rightarrow> pyval list \<Rightarrow> pyval result" where
  "spec_value name scale xs =
     (case find (entry_matches name scale) xs of
        None \<Rightarrow> Inr PNone
      | Some item \<Rightarrow> getitem item ''value'')"


text \<open>The ids of a cache are pairwise different under \<^verbatim>\<open>==\<close>.\<close>

fun keys_differ :: "pyval list \<Rightarrow> bool" where
  "keys_differ [] = True"
| "keys_differ (k # ks) = (list_all (\<lambda>k'. \<not> py_eq k k') ks \<and> keys_differ ks)"

section \<open>Sample records, clients and servers\<close>

definition lamp :: pyval where
  "lamp = PDict [(''id'', PStr ''1''), (''name'', PStr ''Lamp''), (''state'', PInt 2),
                 (''statevalue'', PStr ''42''), (''methods'', PInt 19)]"

definition lamp_null :: pyval where
  "lamp_null = PDict [(''id'', PStr ''1''), (''name'', PStr ''Lamp''), (''state'', PInt 2),
                      (''statevalue'', PNone), (''methods'', PInt 19)]"

definition attic :: pyval where
  "attic = PDict [(''id'', PStr ''7''), (''name'', PStr ''Attic''),
                  (''data'', PList [PDict [(''name'', PStr ''temp''), (''scale'', PStr ''0''),
                                           (''value'', PStr ''21.5'')]])]"

definition client_home :: client where
  "client_home =
     \<lparr>devices_cache = [(PStr ''1'', lamp)], sensors_cache = [(PStr ''7'', attic)], error_log = []\<rparr>"

definition client_null :: client where
  "client_null =
     \<lparr>devices_cache = [(PStr ''1'', lamp_null)], sensors_cache = [], error_log = []\<rparr>"

definition fan :: pyval where
  "fan = PDict [(''id'', PStr ''2''), (''name'', PStr ''Fan''), (''state'', PInt 1),
                (''statevalue'', PStr ''0''), (''methods'', PInt 3)]"

text \<open>A client that has cached two devices.\<close>

definition client_two :: client where
  "client_two =
     \<lparr>devices_cache = [(PStr ''1'', lamp), (PStr ''2'', fan)],
      sensors_cache = [(PStr ''7'', attic)], error_log = []\<rparr>"

definition timed_out :: py_exception where
  "timed_out = OSError (PStr ''timed out'')"

text \<open>A server whose \<^verbatim>\<open>devices/list\<close> times out while \<^verbatim>\<open>sensors/list\<close> answers.\<close>

definition server_devices_down :: session where
  "server_devices_down url ps =
     (if url = ''devices/list'' then Raises timed_out
      else Body (PDict [(''sensor'', PList [attic])]))"

text \<open>A server whose \<^verbatim>\<open>sensors/list\<close> times out while \<^verbatim>\<open>devices/list\<close> answers.\<close>

definition server_sensors_down :: session where
  "server_sensors_down url ps =
     (if url = ''sensors/list'' then Raises timed_out
      else Body (PDict [(''device'', PList [lamp])]))"

text \<open>A server that answers both lists.\<close>

definition server_up :: session where
  "server_up url ps =
     (if url = ''sensors/list'' then Body (PDict [(''sensor'', PList [attic])])
      else Body (PDict [(''device'', PList [lamp])]))"

text \<open>A server that refuses every request with an error body.\<close>

definition server_refusing :: session where
  "server_refusing url ps = Body (PDict [(''error'', PStr ''Not authorized'')])"

text \<open>A server that confirms every command, and one that never answers in time.\<close>

definition server_confirming :: session where
  "server_confirming url ps = Body (PDict [(''status'', PStr ''success'')])"

definition server_silent :: session where
  "server_silent url ps = Raises timed_out"

section \<open>Facts about values and requests\<close>


lemma py_eq_PInt_right:
  "py_eq v (PInt i) = (v = PInt i \<or> (\<exists>b. v = PBool b \<and> i = (if b then 1 else 0)))"
  by (cases v) auto

lemma py_eq_refl: "hashable k \<Longrightarrow> py_eq k k"
  by (cases k) auto

lemma request_fst_state:
  "fst (Client_request get url ps c) = fst (Client_request get url ps c')"
  by (simp add: Client_request_def split: sum.splits)

lemma request_caches:
  "devices_cache (snd (Client_request get url ps c)) = devices_cache c"
  "sensors_cache (snd (Client_request get url ps c)) = sensors_cache c"
  by (simp_all add: Client_request_def split: sum.splits)



section \<open>Remote errors in \<^verbatim>\<open>Client.request\<close>\<close>

text \<open>
  Claim C2, as amended. When the decoded body is an object with an \<^verbatim>\<open>'error'\<close> field, the
  \<^verbatim>\<open>IOError\<close> raised for it is caught by the handler of the same \<^verbatim>\<open>try\<close>: the payload goes
  to the error log and the caller of \<^verbatim>\<open>request\<close> gets \<^verbatim>\<open>None\<close>, not an exception.
\<close>

theorem request_error_field_absent:
  assumes "get url ps = Body (PDict d)" and "map_of d ''error'' = Some payload"
  shows "Client_request get url ps c =
           (Inr PNone, c\<lparr>error_log := error_log c @ [OSError payload]\<rparr>)"
  using assms by (simp add: Client_request_def request_body_def)

theorem request_error_field_absent_witness:
  "Client_request server_refusing ''devices/list'' devices_list_params Client_init =
     (Inr PNone,
      Client_init\<lparr>error_log := error_log Client_init @ [OSError (PStr ''Not authorized'')]\<rparr>)"
  by (rule request_error_field_absent [where d = "[(''error'', PStr ''Not authorized'')]"])
     (simp_all add: server_refusing_def)

text \<open>
  The claim as stated fails: the server refuses with an error body, and \<^verbatim>\<open>request\<close> returns
  \<^verbatim>\<open>None\<close> to its caller; the message is in the log only.
\<close>

theorem request_error_field_counterexample:
  "Client_request server_refusing ''devices/list'' devices_list_params Client_init =
     (Inr PNone,
      \<lparr>devices_cache = [], sensors_cache = [],
       error_log = [OSError (PStr ''Not authorized'')]\<rparr>)"
  by (simp add: Client_request_def request_body_def server_refusing_def Client_init_def)

section \<open>The answer of \<^verbatim>\<open>Client.execute\<close>\<close>




section \<open>\<^verbatim>\<open>Device.is_on\<close>\<close>

text \<open>
  Claim C6. For a cached device whose \<^verbatim>\<open>'state'\<close> holds a method code of the registry
  \<^verbatim>\<open>STR_METHODS\<close>, \<^verbatim>\<open>is_on\<close> is \<^verbatim>\<open>True\<close> exactly when the code is \<^verbatim>\<open>TURNON\<close> or \<^verbatim>\<open>DIM\<close>, and
  \<^verbatim>\<open>False\<close> for every other code.
\<close>

theorem is_on_registry:
  assumes "Client_device c i = Inr r" and "getitem r ''state'' = Inr (PInt m)"
    and "m \<in> set (map fst STR_METHODS)"
  shows "Device_is_on (Device i) c = Inr (PBool (m = TURNON \<or> m = DIM)) \<and>
         (Device_is_on (Device i) c = Inr (PBool True) \<longleftrightarrow> m = TURNON \<or> m = DIM) \<and>
         (Device_is_on (Device i) c = Inr (PBool False) \<longleftrightarrow> m \<noteq> TURNON \<and> m \<noteq> DIM)"
  using assms
  by (auto simp add: Device_is_on_def Device_state_def Device_field_def TURNON_def DIM_def)

theorem is_on_registry_witness:
  "Client_device client_home (PStr ''1'') = Inr lamp \<and>
   getitem lamp ''state'' = Inr (PInt 2) \<and>
   2 \<in> set (map fst STR_METHODS) \<and>
   Device_is_on (Device (PStr ''1'')) client_home = Inr (PBool False)"
proof -
  have a: "Client_device client_home (PStr ''1'') = Inr lamp"
    by (simp add: Client_device_def cache_getitem_def client_home_def)
  have b: "getitem lamp ''state'' = Inr (PInt 2)"
    by (simp add: lamp_def)
  have c: "(2::int) \<in> set (map fst STR_METHODS)"
    by (simp add: STR_METHODS_def TURNON_def TURNOFF_def)
  from is_on_registry [OF a b c]
  have "Device_is_on (Device (PStr ''1'')) client_home = Inr (PBool False)"
    by (simp add: TURNON_def DIM_def)
  with a b c show ?thesis by simp
qed

section \<open>\<^verbatim>\<open>Device.dim_level\<close>\<close>

text \<open>
  On a string the property does what its handler is for: the parsed integer, or \<^verbatim>\<open>None\<close>
  when the string is no integer.
\<close>

lemma dim_level_of_string:
  assumes "Client_device c i = Inr r" and "getitem r ''statevalue'' = Inr (PStr s)"
  shows "Device_dim_level (Device i) c =
           Inr (case int_of_str s of None \<Rightarrow> PNone | Some n \<Rightarrow> PInt n)"
  using assms
  by (simp add: Device_dim_level_def Device_statevalue_def Device_field_def split: option.splits)

lemma int_of_str_42: "int_of_str ''42'' = Some 42"
  by (simp add: int_of_str_def strip_def is_space_def is_digit_def digit_value_def)

lemma int_of_str_unknown: "int_of_str ''unknown'' = None"
  by (simp add: int_of_str_def strip_def is_space_def is_digit_def)

text \<open>
  Claim C7. The claim wants an absent value for every \<^verbatim>\<open>statevalue\<close> that is no integer, a
  null one included. The handler catches \<^verbatim>\<open>ValueError\<close> only: for the cached record whose
  \<^verbatim>\<open>statevalue\<close> is \<^verbatim>\<open>None\<close>, \<^verbatim>\<open>int(None)\<close> raises \<^verbatim>\<open>TypeError\<close>, and \<^verbatim>\<open>dim_level\<close> raises it too.
\<close>

theorem dim_level_null_raises:
  "Device_statevalue (Device (PStr ''1'')) client_null = Inr PNone \<and>
   Device_dim_level (Device (PStr ''1'')) client_null = Inl TypeError"
  by (simp add: Device_dim_level_def Device_statevalue_def Device_field_def Client_device_def
        cache_getitem_def client_null_def lamp_null_def)

section \<open>Identity accessors\<close>

text \<open>
  Claim C10. \<^verbatim>\<open>Device.device_id\<close>, \<^verbatim>\<open>DataItem.sensor_id\<close>, \<^verbatim>\<open>DataItem.name\<close> and
  \<^verbatim>\<open>DataItem.scale\<close> return what the handle holds, whatever the state of the client, and so
  never fail; the properties that read the cache (\<^verbatim>\<open>name\<close>, \<^verbatim>\<open>state\<close>, \<^verbatim>\<open>statevalue\<close>,
  \<^verbatim>\<open>methods\<close>) fail with \<^verbatim>\<open>KeyError\<close> for a handle whose id is not cached.
\<close>

theorem identity_accessors:
  "Device_device_id (Device i) c = Inr i \<and>
   DataItem_sensor_id (DataItem (i, n, s)) c = Inr i \<and>
   DataItem_name (DataItem (i, n, s)) c = Inr n \<and>
   DataItem_scale (DataItem (i, n, s)) c = Inr s \<and>
   (hashable i \<and> cache_get (devices_cache c) i = None \<longrightarrow>
      Device_name (Device i) c = Inl (KeyError i) \<and>
      Device_state (Device i) c = Inl (KeyError i) \<and>
      Device_statevalue (Device i) c = Inl (KeyError i) \<and>
      Device_methods (Device i) c = Inl (KeyError i))"
  by (simp add: Device_name_def Device_state_def Device_statevalue_def Device_methods_def
        Device_field_def Client_device_def cache_getitem_def)

theorem identity_accessors_witness:
  "hashable (PStr ''9'') \<and> cache_get (devices_cache client_home) (PStr ''9'') = None \<and>
   Device_device_id (Device (PStr ''9'')) client_home = Inr (PStr ''9'') \<and>
   Device_name (Device (PStr ''9'')) client_home = Inl (KeyError (PStr ''9''))"
proof -
  have a: "hashable (PStr ''9'') \<and> cache_get (devices_cache client_home) (PStr ''9'') = None"
    by (simp add: client_home_def)
  from identity_accessors [of "PStr ''9''" client_home] a show ?thesis by simp
qed

section \<open>Commands of a device\<close>

lemma map_of_dict_set: "map_of (dict_set d k v) = (map_of d)(k \<mapsto> v)"
  by (induction d) (auto simp: fun_eq_iff)

lemma cache_get_set_same:
  "cache_get m k = Some r \<Longrightarrow> cache_get (cache_set m k v) k = Some v"
  by (induction m) (auto split: if_splits)

lemma execute_caches:
  "devices_cache (snd (Client_execute get path ps c)) = devices_cache c"
  "sensors_cache (snd (Client_execute get path ps c)) = sensors_cache c"
proof -
  obtain res c' where r: "Client_request get path ps c = (res, c')"
    by (cases "Client_request get path ps c")
  from request_caches [of get path ps c] r
  have "devices_cache c' = devices_cache c" "sensors_cache c' = sensors_cache c" by simp_all
  with r show "devices_cache (snd (Client_execute get path ps c)) = devices_cache c"
    "sensors_cache (snd (Client_execute get path ps c)) = sensors_cache c"
    by (simp_all add: Client_execute_def split: sum.splits)
qed

lemma Device_execute_truthy:
  assumes "cache_get (devices_cache c) i = Some (PDict r)" and "hashable i"
    and "map_of API_METHODS command = Some path"
    and "fst (Client_execute get path (dict_set ps ''id'' i) c) = Inr ok" and "truthy ok"
  shows "Device_execute get (Device i) command ps c =
           (Inr (PBool True),
            (snd (Client_execute get path (dict_set ps ''id'' i) c))
              \<lparr>devices_cache :=
                 cache_set (devices_cache c) i (PDict (dict_set r ''state'' (PInt command)))\<rparr>)"
proof -
  obtain res c' where e: "Client_execute get path (dict_set ps ''id'' i) c = (res, c')"
    by (cases "Client_execute get path (dict_set ps ''id'' i) c")
  from execute_caches(1) [of get path "dict_set ps ''id'' i" c] e
  have d: "devices_cache c' = devices_cache c" by simp
  from e assms(4) have res: "res = Inr ok" by simp
  show ?thesis
    using assms(1,2,3,5) e d res
    by (simp add: Client_device_def cache_getitem_def)
qed

lemma Device_execute_falsy:
  assumes "map_of API_METHODS command = Some path"
    and "fst (Client_execute get path (dict_set ps ''id'' i) c) = Inr ok" and "\<not> truthy ok"
  shows "Device_execute get (Device i) command ps c =
           (Inr PNone, snd (Client_execute get path (dict_set ps ''id'' i) c))"
proof -
  obtain res c' where e: "Client_execute get path (dict_set ps ''id'' i) c = (res, c')"
    by (cases "Client_execute get path (dict_set ps ''id'' i) c")
  with assms show ?thesis by simp
qed

lemma device_after_set:
  assumes "cache_get (devices_cache c) i = Some r" and "hashable i"
  shows "Client_device (c'\<lparr>devices_cache := cache_set (devices_cache c) i r'\<rparr>) i = Inr r'"
  using assms by (simp add: Client_device_def cache_getitem_def cache_get_set_same)

lemma home_lamp:
  "cache_get (devices_cache client_home) (PStr ''1'') =
     Some (PDict [(''id'', PStr ''1''), (''name'', PStr ''Lamp''), (''state'', PInt 2),
                  (''statevalue'', PStr ''42''), (''methods'', PInt 19)])"
  by (simp add: client_home_def lamp_def)

lemma confirming_execute:
  "fst (Client_execute server_confirming path ps c) = Inr (PBool True)"
  by (simp add: Client_execute_def Client_request_def request_body_def server_confirming_def)

lemma silent_execute:
  "fst (Client_execute server_silent path ps c) = Inr PNone"
  by (simp add: Client_execute_def Client_request_def request_body_def server_silent_def
        timed_out_def)

text \<open>
  Claim C4. For a device whose id is cached: when \<^verbatim>\<open>Client.execute\<close> answers with a true value,
  \<^verbatim>\<open>turn_on\<close> returns \<^verbatim>\<open>True\<close>, the cached \<^verbatim>\<open>'state'\<close> becomes \<^verbatim>\<open>TURNON\<close> and \<^verbatim>\<open>'statevalue'\<close>
  reads as before; when it answers with a false value, \<^verbatim>\<open>turn_on\<close> returns \<^verbatim>\<open>None\<close> (falsy) and
  the device cache, the record included, is what it was.
\<close>

theorem turn_on_effect:
  assumes "cache_get (devices_cache c) i = Some (PDict r)" and "hashable i"
    and "fst (Client_execute get ''device/turnOn'' [(''id'', i)] c) = Inr ok"
  shows "(truthy ok \<longrightarrow>
            fst (Device_turn_on get (Device i) c) = Inr (PBool True) \<and>
            Device_state (Device i) (snd (Device_turn_on get (Device i) c)) = Inr (PInt TURNON) \<and>
            Device_statevalue (Device i) (snd (Device_turn_on get (Device i) c))
              = Device_statevalue (Device i) c) \<and>
         (\<not> truthy ok \<longrightarrow>
            fst (Device_turn_on get (Device i) c) = Inr PNone \<and>
            devices_cache (snd (Device_turn_on get (Device i) c)) = devices_cache c \<and>
            Client_device (snd (Device_turn_on get (Device i) c)) i = Inr (PDict r))"
proof -
  have m: "map_of API_METHODS TURNON = Some ''device/turnOn''"
    by (simp add: API_METHODS_def)
  have p: "dict_set [] ''id'' i = [(''id'', i)]" by simp
  have before: "Client_device c i = Inr (PDict r)"
    using assms(1,2) by (simp add: Client_device_def cache_getitem_def)
  show ?thesis
  proof (cases "truthy ok")
    case True
    from Device_execute_truthy [OF assms(1,2) m, of get "[]" ok] assms(3) True p
    have "Device_turn_on get (Device i) c =
            (Inr (PBool True),
             (snd (Client_execute get ''device/turnOn'' [(''id'', i)] c))
               \<lparr>devices_cache :=
                  cache_set (devices_cache c) i (PDict (dict_set r ''state'' (PInt TURNON)))\<rparr>)"
      by (simp add: Device_turn_on_def)
    with True before device_after_set [OF assms(1,2)] show ?thesis
      by (simp add: Device_state_def Device_statevalue_def Device_field_def map_of_dict_set)
  next
    case False
    from Device_execute_falsy [OF m, of get "[]" i c ok] assms(3) False p
    have "Device_turn_on get (Device i) c =
            (Inr PNone, snd (Client_execute get ''device/turnOn'' [(''id'', i)] c))"
      by (simp add: Device_turn_on_def)
    with False before execute_caches(1) [of get "''device/turnOn''" "[(''id'', i)]" c]
    show ?thesis by (simp add: Client_device_def)
  qed
qed

theorem turn_on_effect_witness:
  "cache_get (devices_cache client_home) (PStr ''1'') = Some lamp \<and>
   hashable (PStr ''1'') \<and>
   fst (Client_execute server_confirming ''device/turnOn'' [(''id'', PStr ''1'')] client_home)
     = Inr (PBool True) \<and>
   fst (Device_turn_on server_confirming (Device (PStr ''1'')) client_home) = Inr (PBool True) \<and>
   Device_state (Device (PStr ''1''))
     (snd (Device_turn_on server_confirming (Device (PStr ''1'')) client_home)) = Inr (PInt 1) \<and>
   Device_statevalue (Device (PStr ''1''))
     (snd (Device_turn_on server_confirming (Device (PStr ''1'')) client_home))
     = Inr (PStr ''42'') \<and>
   fst (Client_execute server_silent ''device/turnOn'' [(''id'', PStr ''1'')] client_home)
     = Inr PNone \<and>
   fst (Device_turn_on server_silent (Device (PStr ''1'')) client_home) = Inr PNone \<and>
   Client_device (snd (Device_turn_on server_silent (Device (PStr ''1'')) client_home)) (PStr ''1'')
     = Inr lamp"
proof -
  have h: "hashable (PStr ''1'')" by simp
  have sv: "Device_statevalue (Device (PStr ''1'')) client_home = Inr (PStr ''42'')"
    by (simp add: Device_statevalue_def Device_field_def Client_device_def cache_getitem_def
          client_home_def lamp_def)
  from turn_on_effect [OF home_lamp h confirming_execute] sv
  have ok: "fst (Device_turn_on server_confirming (Device (PStr ''1'')) client_home) = Inr (PBool True) \<and>
    Device_state (Device (PStr ''1''))
      (snd (Device_turn_on server_confirming (Device (PStr ''1'')) client_home)) = Inr (PInt 1) \<and>
    Device_statevalue (Device (PStr ''1''))
      (snd (Device_turn_on server_confirming (Device (PStr ''1'')) client_home))
      = Inr (PStr ''42'')"
    by (simp add: TURNON_def)
  from turn_on_effect [OF home_lamp h silent_execute]
  have ko: "fst (Device_turn_on server_silent (Device (PStr ''1'')) client_home) = Inr PNone \<and>
    Client_device (snd (Device_turn_on server_silent (Device (PStr ''1'')) client_home)) (PStr ''1'')
      = Inr lamp"
    by (simp add: lamp_def)
  from ok ko home_lamp confirming_execute silent_execute show ?thesis
    by (simp add: lamp_def)
qed

lemma cache_set_split:
  "cache_get m i = Some v \<Longrightarrow>
     \<exists>pre k0 post. m = pre @ (k0, v) # post \<and> (\<forall>e \<in> set pre. \<not> py_eq (fst e) i) \<and>
        py_eq k0 i \<and> cache_set m i v' = pre @ (k0, v') # post"
proof (induction m)
  case Nil
  then show ?case by simp
next
  case (Cons e m)
  obtain k r where e: "e = (k, r)" by (cases e)
  show ?case
  proof (cases "py_eq k i")
    case True
    with Cons.prems e have "r = v" by simp
    with True e have "e # m = [] @ (k, v) # m \<and> (\<forall>e \<in> set []. \<not> py_eq (fst e) i) \<and>
        py_eq k i \<and> cache_set (e # m) i v' = [] @ (k, v') # m"
      by simp
    then show ?thesis by blast
  next
    case False
    with Cons.prems e have "cache_get m i = Some v" by simp
    from Cons.IH [OF this] obtain pre k0 post where
      h: "m = pre @ (k0, v) # post" "\<forall>e \<in> set pre. \<not> py_eq (fst e) i" "py_eq k0 i"
         "cache_set m i v' = pre @ (k0, v') # post"
      by blast
    with False e have "e # m = (e # pre) @ (k0, v) # post \<and>
        (\<forall>e \<in> set (e # pre). \<not> py_eq (fst e) i) \<and>
        py_eq k0 i \<and> cache_set (e # m) i v' = (e # pre) @ (k0, v') # post"
      by simp
    then show ?thesis by blast
  qed
qed

lemma execute_truthy_state:
  assumes "fst (Client_execute get path ps c) = Inr ok" and "truthy ok"
  shows "snd (Client_execute get path ps c) = c"
  using assms
  by (auto simp: Client_execute_def Client_request_def split: sum.splits if_splits prod.splits)

lemma two_lamp:
  "cache_get (devices_cache client_two) (PStr ''1'') =
     Some (PDict [(''id'', PStr ''1''), (''name'', PStr ''Lamp''), (''state'', PInt 2),
                  (''statevalue'', PStr ''42''), (''methods'', PInt 19)])"
  by (simp add: client_two_def lamp_def)

text \<open>
  Claim C5. For a cached device and any level, a \<^verbatim>\<open>dim\<close> that \<^verbatim>\<open>Client.execute\<close> confirms stores
  \<^verbatim>\<open>DIM\<close> in the record's \<^verbatim>\<open>'state'\<close> and changes nothing else: \<^verbatim>\<open>'statevalue'\<close> and every
  other field of the record read as before, the record as a mapping is the old one with
  \<^verbatim>\<open>'state'\<close> rebound, and the client after the call is the client before it with that one
  entry of the device cache replaced in place; every other device, the sensors and the log
  are what they were.
\<close>

theorem dim_effect:
  assumes "cache_get (devices_cache c) i = Some (PDict r)" and "hashable i"
    and "fst (Client_execute get ''device/dim'' [(''level'', level), (''id'', i)] c) = Inr ok"
    and "truthy ok"
  shows "fst (Device_dim get (Device i) level c) = Inr (PBool True) \<and>
         Client_device (snd (Device_dim get (Device i) level c)) i
           = Inr (PDict (dict_set r ''state'' (PInt DIM))) \<and>
         Device_state (Device i) (snd (Device_dim get (Device i) level c)) = Inr (PInt DIM) \<and>
         Device_statevalue (Device i) (snd (Device_dim get (Device i) level c))
           = Device_statevalue (Device i) c \<and>
         (\<forall>k. k \<noteq> ''state'' \<longrightarrow>
            Device_field k (Device i) (snd (Device_dim get (Device i) level c))
              = Device_field k (Device i) c) \<and>
         sensors_cache (snd (Device_dim get (Device i) level c)) = sensors_cache c \<and>
         (\<exists>pre k0 post.
            devices_cache c = pre @ (k0, PDict r) # post \<and>
            (\<forall>e \<in> set pre. \<not> py_eq (fst e) i) \<and> py_eq k0 i \<and>
            snd (Device_dim get (Device i) level c)
              = c\<lparr>devices_cache :=
                    pre @ (k0, PDict (dict_set r ''state'' (PInt DIM))) # post\<rparr>) \<and>
         map_of (dict_set r ''state'' (PInt DIM)) = (map_of r)(''state'' \<mapsto> PInt DIM)"
proof -
  have m: "map_of API_METHODS DIM = Some ''device/dim''"
    by (simp add: API_METHODS_def TURNON_def TURNOFF_def DIM_def)
  have p: "dict_set [(''level'', level)] ''id'' i = [(''level'', level), (''id'', i)]" by simp
  have before: "Client_device c i = Inr (PDict r)"
    using assms(1,2) by (simp add: Client_device_def cache_getitem_def)
  have same: "snd (Client_execute get ''device/dim'' [(''level'', level), (''id'', i)] c) = c"
    by (rule execute_truthy_state [OF assms(3,4)])
  from Device_execute_truthy [OF assms(1,2) m, of get "[(''level'', level)]" ok] assms(3,4) p same
  have run: "Device_dim get (Device i) level c =
          (Inr (PBool True),
           c\<lparr>devices_cache :=
                cache_set (devices_cache c) i (PDict (dict_set r ''state'' (PInt DIM)))\<rparr>)"
    by (simp add: Device_dim_def)
  from run before device_after_set [OF assms(1,2), where c' = c]
  have first: "fst (Device_dim get (Device i) level c) = Inr (PBool True) \<and>
         Client_device (snd (Device_dim get (Device i) level c)) i
           = Inr (PDict (dict_set r ''state'' (PInt DIM))) \<and>
         Device_state (Device i) (snd (Device_dim get (Device i) level c)) = Inr (PInt DIM) \<and>
         Device_statevalue (Device i) (snd (Device_dim get (Device i) level c))
           = Device_statevalue (Device i) c \<and>
         (\<forall>k. k \<noteq> ''state'' \<longrightarrow>
            Device_field k (Device i) (snd (Device_dim get (Device i) level c))
              = Device_field k (Device i) c) \<and>
         sensors_cache (snd (Device_dim get (Device i) level c)) = sensors_cache c"
    by (simp add: Device_state_def Device_statevalue_def Device_field_def map_of_dict_set)
  from cache_set_split [OF assms(1), of "PDict (dict_set r ''state'' (PInt DIM))"]
  obtain pre k0 post where
    h: "devices_cache c = pre @ (k0, PDict r) # post" "\<forall>e \<in> set pre. \<not> py_eq (fst e) i"
       "py_eq k0 i"
       "cache_set (devices_cache c) i (PDict (dict_set r ''state'' (PInt DIM)))
          = pre @ (k0, PDict (dict_set r ''state'' (PInt DIM))) # post"
    by blast
  from run h have frame: "\<exists>pre k0 post.
            devices_cache c = pre @ (k0, PDict r) # post \<and>
            (\<forall>e \<in> set pre. \<not> py_eq (fst e) i) \<and> py_eq k0 i \<and>
            snd (Device_dim get (Device i) level c)
              = c\<lparr>devices_cache :=
                    pre @ (k0, PDict (dict_set r ''state'' (PInt DIM))) # post\<rparr>"
    by auto
  from first frame show ?thesis by (simp add: map_of_dict_set)
qed

theorem dim_effect_witness:
  "cache_get (devices_cache client_two) (PStr ''1'') = Some lamp \<and>
   hashable (PStr ''1'') \<and>
   fst (Client_execute server_confirming ''device/dim''
          [(''level'', PInt 80), (''id'', PStr ''1'')] client_two) = Inr (PBool True) \<and>
   truthy (PBool True) \<and>
   fst (Device_dim server_confirming (Device (PStr ''1'')) (PInt 80) client_two)
     = Inr (PBool True) \<and>
   Device_state (Device (PStr ''1''))
     (snd (Device_dim server_confirming (Device (PStr ''1'')) (PInt 80) client_two))
     = Inr (PInt 16) \<and>
   Device_statevalue (Device (PStr ''1''))
     (snd (Device_dim server_confirming (Device (PStr ''1'')) (PInt 80) client_two))
     = Inr (PStr ''42'') \<and>
   Client_device (snd (Device_dim server_confirming (Device (PStr ''1'')) (PInt 80) client_two))
     (PStr ''2'') = Inr fan \<and>
   snd (Device_dim server_confirming (Device (PStr ''1'')) (PInt 80) client_two)
     = client_two\<lparr>devices_cache :=
         [(PStr ''1'',
           PDict [(''id'', PStr ''1''), (''name'', PStr ''Lamp''), (''state'', PInt 16),
                  (''statevalue'', PStr ''42''), (''methods'', PInt 19)]),
          (PStr ''2'', fan)]\<rparr>"
proof -
  have h: "hashable (PStr ''1'')" by simp
  have t: "truthy (PBool True)" by simp
  have sv: "Device_statevalue (Device (PStr ''1'')) client_two = Inr (PStr ''42'')"
    by (simp add: Device_statevalue_def Device_field_def Client_device_def cache_getitem_def
          client_two_def lamp_def)
  note eff = dim_effect [OF two_lamp h confirming_execute t, of "PInt 80"]
  from eff sv
  have a: "fst (Device_dim server_confirming (Device (PStr ''1'')) (PInt 80) client_two)
     = Inr (PBool True) \<and>
   Device_state (Device (PStr ''1''))
     (snd (Device_dim server_confirming (Device (PStr ''1'')) (PInt 80) client_two))
     = Inr (PInt 16) \<and>
   Device_statevalue (Device (PStr ''1''))
     (snd (Device_dim server_confirming (Device (PStr ''1'')) (PInt 80) client_two))
     = Inr (PStr ''42'')"
    by (simp add: DIM_def)
  from eff obtain pre k0 post where
    eq: "devices_cache client_two = pre @ (k0, lamp) # post"
    and nm: "\<forall>e \<in> set pre. \<not> py_eq (fst e) (PStr ''1'')"
    and st: "snd (Device_dim server_confirming (Device (PStr ''1'')) (PInt 80) client_two)
              = client_two\<lparr>devices_cache :=
                  pre @ (k0, PDict [(''id'', PStr ''1''), (''name'', PStr ''Lamp''),
                                    (''state'', PInt 16), (''statevalue'', PStr ''42''),
                                    (''methods'', PInt 19)]) # post\<rparr>"
    by (auto simp: lamp_def DIM_def)
  have pre: "pre = []"
  proof (cases pre)
    case Nil
    then show ?thesis .
  next
    case (Cons e es)
    with eq have "e = (PStr ''1'', lamp)" by (simp add: client_two_def)
    with nm Cons show ?thesis by simp
  qed
  with eq have "k0 = PStr ''1''" and "post = [(PStr ''2'', fan)]"
    by (simp_all add: client_two_def)
  with pre st
  have full: "snd (Device_dim server_confirming (Device (PStr ''1'')) (PInt 80) client_two)
     = client_two\<lparr>devices_cache :=
         [(PStr ''1'',
           PDict [(''id'', PStr ''1''), (''name'', PStr ''Lamp''), (''state'', PInt 16),
                  (''statevalue'', PStr ''42''), (''methods'', PInt 19)]),
          (PStr ''2'', fan)]\<rparr>"
    by simp
  then have other: "Client_device
      (snd (Device_dim server_confirming (Device (PStr ''1'')) (PInt 80) client_two))
      (PStr ''2'') = Inr fan"
    by (simp add: Client_device_def cache_getitem_def)
  from a full other two_lamp confirming_execute show ?thesis by (simp add: lamp_def)
qed

section \<open>The value of a data item\<close>

lemma first_value_spec:
  "list_all entry_wf xs \<Longrightarrow> first_value n s xs = spec_value n s xs"
proof (induction xs)
  case Nil
  show ?case by (simp add: spec_value_def)
next
  case (Cons x xs)
  from Cons.prems obtain d where x: "x = PDict d" by (cases x) auto
  with Cons.prems obtain a b v where f: "map_of d ''name'' = Some a" "map_of d ''scale'' = Some b"
      "map_of d ''value'' = Some v" by auto
  from Cons have ih: "first_value n s xs = spec_value n s xs" by simp
  show ?case using x f ih by (simp add: spec_value_def entry_matches_def)
qed

text \<open>
  Claim C8. For a data item whose sensor is cached with well-formed \<^verbatim>\<open>data\<close>, \<^verbatim>\<open>value\<close> is the
  \<^verbatim>\<open>'value'\<close> of the first entry whose name and scale both equal the item's, and \<^verbatim>\<open>None\<close>
  when no entry matches.
\<close>

theorem data_item_value:
  assumes "Client_sensor c sid = Inr r" and "getitem r ''data'' = Inr (PList xs)"
    and "list_all entry_wf xs"
  shows "DataItem_value (DataItem (sid, n, s)) c = spec_value n s xs \<and>
         (find (entry_matches n s) xs = None \<longrightarrow>
            DataItem_value (DataItem (sid, n, s)) c = Inr PNone) \<and>
         (\<forall>item. find (entry_matches n s) xs = Some item \<longrightarrow>
            DataItem_value (DataItem (sid, n, s)) c = getitem item ''value'')"
  using assms first_value_spec [of xs n s]
  by (simp add: Sensor_data_def spec_value_def)

theorem data_item_value_witness:
  "Client_sensor client_home (PStr ''7'') = Inr attic \<and>
   getitem attic ''data''
     = Inr (PList [PDict [(''name'', PStr ''temp''), (''scale'', PStr ''0''),
                          (''value'', PStr ''21.5'')]]) \<and>
   list_all entry_wf [PDict [(''name'', PStr ''temp''), (''scale'', PStr ''0''),
                             (''value'', PStr ''21.5'')]] \<and>
   DataItem_value (DataItem (PStr ''7'', PStr ''temp'', PStr ''0'')) client_home
     = Inr (PStr ''21.5'') \<and>
   DataItem_value (DataItem (PStr ''7'', PStr ''temp'', PStr ''1'')) client_home = Inr PNone"
proof -
  have a: "Client_sensor client_home (PStr ''7'') = Inr attic"
    by (simp add: Client_sensor_def cache_getitem_def client_home_def)
  have b: "getitem attic ''data''
     = Inr (PList [PDict [(''name'', PStr ''temp''), (''scale'', PStr ''0''),
                          (''value'', PStr ''21.5'')]])"
    by (simp add: attic_def)
  have w: "list_all entry_wf [PDict [(''name'', PStr ''temp''), (''scale'', PStr ''0''),
                             (''value'', PStr ''21.5'')]]"
    by simp
  from data_item_value [OF a b w, of "PStr ''temp''" "PStr ''0''"]
  have v0: "DataItem_value (DataItem (PStr ''7'', PStr ''temp'', PStr ''0'')) client_home
     = Inr (PStr ''21.5'')"
    by (simp add: spec_value_def entry_matches_def)
  from data_item_value [OF a b w, of "PStr ''temp''" "PStr ''1''"]
  have v1: "DataItem_value (DataItem (PStr ''7'', PStr ''temp'', PStr ''1'')) client_home = Inr PNone"
    by (simp add: spec_value_def entry_matches_def)
  from a b w v0 v1 show ?thesis by simp
qed

section \<open>Refreshing the caches\<close>

lemma request_devices_fst:
  "fst (Client_request_devices get c) =
     (case fst (Client_request get ''devices/list'' devices_list_params c) of
        Inl e \<Rightarrow> Inl e
      | Inr res \<Rightarrow> if truthy res then py_get res ''device'' else Inr (PList []))"
  by (simp add: Client_request_devices_def split: prod.splits sum.splits)

lemma request_sensors_fst:
  "fst (Client_request_sensors get c) =
     (case fst (Client_request get ''sensors/list'' sensors_list_params c) of
        Inl e \<Rightarrow> Inl e
      | Inr res \<Rightarrow> if truthy res then py_get res ''sensor'' else Inr (PList []))"
  by (simp add: Client_request_sensors_def split: prod.splits sum.splits)

lemma request_sensors_fst_state:
  "fst (Client_request_sensors get c) = fst (Client_request_sensors get c')"
  unfolding request_sensors_fst
  using request_fst_state [of get "''sensors/list''" sensors_list_params c c'] by simp

lemma request_devices_caches:
  "devices_cache (snd (Client_request_devices get c)) = devices_cache c"
  "sensors_cache (snd (Client_request_devices get c)) = sensors_cache c"
  using request_caches [of get "''devices/list''" devices_list_params c]
  by (auto simp add: Client_request_devices_def split: prod.splits sum.splits)

lemma request_sensors_caches:
  "devices_cache (snd (Client_request_sensors get c)) = devices_cache c"
  "sensors_cache (snd (Client_request_sensors get c)) = sensors_cache c"
  using request_caches [of get "''sensors/list''" sensors_list_params c]
  by (auto simp add: Client_request_sensors_def split: prod.splits sum.splits)

lemma update_devices:
  assumes "fst (Client_request_devices get c) = Inr ds" and "comprehension_by_id ds = Inr dm"
  shows "devices_cache (snd (Client_update get c)) = dm"
proof -
  obtain c1 where r1: "Client_request_devices get c = (Inr ds, c1)"
    using assms(1) by (cases "Client_request_devices get c") auto
  obtain x c2 where r2: "Client_request_sensors get (c1\<lparr>devices_cache := dm\<rparr>) = (x, c2)"
    by (cases "Client_request_sensors get (c1\<lparr>devices_cache := dm\<rparr>)")
  from request_sensors_caches(1) [of get "c1\<lparr>devices_cache := dm\<rparr>"] r2
  have "devices_cache c2 = dm" by simp
  with r1 r2 assms(2) show ?thesis
    by (simp add: Client_update_def split: sum.splits)
qed

lemma update_both:
  assumes "fst (Client_request_devices get c) = Inr ds" and "comprehension_by_id ds = Inr dm"
    and "fst (Client_request_sensors get c) = Inr ss" and "comprehension_by_id ss = Inr sm"
  shows "fst (Client_update get c) = Inr PNone \<and>
         devices_cache (snd (Client_update get c)) = dm \<and>
         sensors_cache (snd (Client_update get c)) = sm"
proof -
  obtain c1 where r1: "Client_request_devices get c = (Inr ds, c1)"
    using assms(1) by (cases "Client_request_devices get c") auto
  obtain x c2 where r2: "Client_request_sensors get (c1\<lparr>devices_cache := dm\<rparr>) = (x, c2)"
    by (cases "Client_request_sensors get (c1\<lparr>devices_cache := dm\<rparr>)")
  from request_sensors_fst_state [of get "c1\<lparr>devices_cache := dm\<rparr>" c] r2 assms(3)
  have x: "x = Inr ss" by simp
  from request_sensors_caches(1) [of get "c1\<lparr>devices_cache := dm\<rparr>"] r2
  have "devices_cache c2 = dm" by simp
  with r1 r2 x assms(2,4) show ?thesis
    by (simp add: Client_update_def)
qed

lemma comprehension_empty: "comprehension_by_id (PList []) = Inr []"
  by (simp add: comprehension_by_id_def)

text \<open>
  Claim C1, as amended. When \<^verbatim>\<open>devices/list\<close> yields an absent result and \<^verbatim>\<open>sensors/list\<close>
  delivers its list, \<^verbatim>\<open>update\<close> leaves the device cache empty and the sensor cache holding
  the records delivered; when \<^verbatim>\<open>sensors/list\<close> yields an absent result and \<^verbatim>\<open>devices/list\<close>
  delivers its list, the sensor cache is left empty and the device cache holds the records
  delivered. What was cached before is not kept.
\<close>

theorem update_partial_failure:
  "(fst (Client_request get ''devices/list'' devices_list_params c) = Inr PNone \<and>
    fst (Client_request get ''sensors/list'' sensors_list_params c) = Inr (PDict b) \<and>
    map_of b ''sensor'' = Some (PList ss) \<and> dict_by_id ss [] = Inr sm
      \<longrightarrow> fst (Client_update get c) = Inr PNone \<and>
          devices_cache (snd (Client_update get c)) = [] \<and>
          sensors_cache (snd (Client_update get c)) = sm) \<and>
   (fst (Client_request get ''sensors/list'' sensors_list_params c) = Inr PNone \<and>
    fst (Client_request get ''devices/list'' devices_list_params c) = Inr (PDict b) \<and>
    map_of b ''device'' = Some (PList ds) \<and> dict_by_id ds [] = Inr dm
      \<longrightarrow> fst (Client_update get c) = Inr PNone \<and>
          devices_cache (snd (Client_update get c)) = dm \<and>
          sensors_cache (snd (Client_update get c)) = [])"
proof (intro conjI impI)
  assume a: "fst (Client_request get ''devices/list'' devices_list_params c) = Inr PNone \<and>
    fst (Client_request get ''sensors/list'' sensors_list_params c) = Inr (PDict b) \<and>
    map_of b ''sensor'' = Some (PList ss) \<and> dict_by_id ss [] = Inr sm"
  then have d: "fst (Client_request_devices get c) = Inr (PList [])"
    by (simp add: request_devices_fst)
  from a have "b \<noteq> []" by auto
  with a have s: "fst (Client_request_sensors get c) = Inr (PList ss)"
    by (simp add: request_sensors_fst)
  from a have cs: "comprehension_by_id (PList ss) = Inr sm"
    by (simp add: comprehension_by_id_def)
  from update_both [OF d comprehension_empty s cs]
  show "fst (Client_update get c) = Inr PNone"
    "devices_cache (snd (Client_update get c)) = []"
    "sensors_cache (snd (Client_update get c)) = sm" by simp_all
next
  assume a: "fst (Client_request get ''sensors/list'' sensors_list_params c) = Inr PNone \<and>
    fst (Client_request get ''devices/list'' devices_list_params c) = Inr (PDict b) \<and>
    map_of b ''device'' = Some (PList ds) \<and> dict_by_id ds [] = Inr dm"
  then have s: "fst (Client_request_sensors get c) = Inr (PList [])"
    by (simp add: request_sensors_fst)
  from a have "b \<noteq> []" by auto
  with a have d: "fst (Client_request_devices get c) = Inr (PList ds)"
    by (simp add: request_devices_fst)
  from a have cd: "comprehension_by_id (PList ds) = Inr dm"
    by (simp add: comprehension_by_id_def)
  from update_both [OF d cd s comprehension_empty]
  show "fst (Client_update get c) = Inr PNone"
    "devices_cache (snd (Client_update get c)) = dm"
    "sensors_cache (snd (Client_update get c)) = []" by simp_all
qed

lemma devices_down_requests:
  "fst (Client_request server_devices_down ''devices/list'' devices_list_params c) = Inr PNone"
  "fst (Client_request server_devices_down ''sensors/list'' sensors_list_params c)
     = Inr (PDict [(''sensor'', PList [attic])])"
  by (simp_all add: Client_request_def request_body_def server_devices_down_def timed_out_def)

lemma dict_by_id_attic: "dict_by_id [attic] [] = Inr [(PStr ''7'', attic)]"
  by (simp add: attic_def)

lemma sensors_down_requests:
  "fst (Client_request server_sensors_down ''sensors/list'' sensors_list_params c) = Inr PNone"
  "fst (Client_request server_sensors_down ''devices/list'' devices_list_params c)
     = Inr (PDict [(''device'', PList [lamp])])"
  by (simp_all add: Client_request_def request_body_def server_sensors_down_def timed_out_def)

lemma dict_by_id_lamp: "dict_by_id [lamp] [] = Inr [(PStr ''1'', lamp)]"
  by (simp add: lamp_def)

theorem update_partial_failure_witness:
  "fst (Client_request server_devices_down ''devices/list'' devices_list_params client_home)
     = Inr PNone \<and>
   fst (Client_request server_devices_down ''sensors/list'' sensors_list_params client_home)
     = Inr (PDict [(''sensor'', PList [attic])]) \<and>
   map_of [(''sensor'', PList [attic])] ''sensor'' = Some (PList [attic]) \<and>
   dict_by_id [attic] [] = Inr [(PStr ''7'', attic)] \<and>
   fst (Client_update server_devices_down client_home) = Inr PNone \<and>
   devices_cache (snd (Client_update server_devices_down client_home)) = [] \<and>
   sensors_cache (snd (Client_update server_devices_down client_home)) = [(PStr ''7'', attic)] \<and>
   fst (Client_request server_sensors_down ''sensors/list'' sensors_list_params client_home)
     = Inr PNone \<and>
   fst (Client_request server_sensors_down ''devices/list'' devices_list_params client_home)
     = Inr (PDict [(''device'', PList [lamp])]) \<and>
   map_of [(''device'', PList [lamp])] ''device'' = Some (PList [lamp]) \<and>
   dict_by_id [lamp] [] = Inr [(PStr ''1'', lamp)] \<and>
   devices_cache (snd (Client_update server_sensors_down client_home)) = [(PStr ''1'', lamp)] \<and>
   sensors_cache (snd (Client_update server_sensors_down client_home)) = []"
proof -
  have m: "map_of [(''sensor'', PList [attic])] ''sensor'' = Some (PList [attic])" by simp
  have m': "map_of [(''device'', PList [lamp])] ''device'' = Some (PList [lamp])" by simp
  from update_partial_failure
         [of server_devices_down client_home "[(''sensor'', PList [attic])]" "[attic]"
             "[(PStr ''7'', attic)]"]
       devices_down_requests [of client_home] m dict_by_id_attic
  have d: "fst (Client_update server_devices_down client_home) = Inr PNone \<and>
    devices_cache (snd (Client_update server_devices_down client_home)) = [] \<and>
    sensors_cache (snd (Client_update server_devices_down client_home)) = [(PStr ''7'', attic)]"
    by simp
  from update_partial_failure
         [of server_sensors_down client_home "[(''device'', PList [lamp])]" _ _ "[lamp]"
             "[(PStr ''1'', lamp)]"]
       sensors_down_requests [of client_home] m' dict_by_id_lamp
  have s: "devices_cache (snd (Client_update server_sensors_down client_home))
             = [(PStr ''1'', lamp)] \<and>
    sensors_cache (snd (Client_update server_sensors_down client_home)) = []"
    by simp
  from d s devices_down_requests [of client_home] sensors_down_requests [of client_home]
    m m' dict_by_id_attic dict_by_id_lamp
  show ?thesis by simp
qed

text \<open>
  The claim as stated fails: the lamp is cached, \<^verbatim>\<open>devices/list\<close> times out while
  \<^verbatim>\<open>sensors/list\<close> answers, and after \<^verbatim>\<open>update\<close> the lamp is gone from the cache.
\<close>

theorem update_partial_failure_counterexample:
  "Client_device client_home (PStr ''1'') = Inr lamp \<and>
   fst (Client_request server_devices_down ''devices/list'' devices_list_params client_home)
     = Inr PNone \<and>
   fst (Client_request server_devices_down ''sensors/list'' sensors_list_params client_home)
     = Inr (PDict [(''sensor'', PList [attic])]) \<and>
   Client_device (snd (Client_update server_devices_down client_home)) (PStr ''1'')
     = Inl (KeyError (PStr ''1''))"
proof -
  have a: "Client_device client_home (PStr ''1'') = Inr lamp"
    by (simp add: Client_device_def cache_getitem_def client_home_def)
  have d: "fst (Client_request_devices server_devices_down client_home) = Inr (PList [])"
    by (simp add: request_devices_fst devices_down_requests)
  from update_devices [OF d comprehension_empty]
  have "Client_device (snd (Client_update server_devices_down client_home)) (PStr ''1'')
     = Inl (KeyError (PStr ''1''))"
    by (simp add: Client_device_def cache_getitem_def)
  with a devices_down_requests [of client_home] show ?thesis by simp
qed

section \<open>The cache after a refresh\<close>

lemma cache_get_None_iff: "cache_get m k = None \<longleftrightarrow> (\<forall>k' \<in> set (map fst m). \<not> py_eq k' k)"
proof (induction m)
  case Nil
  show ?case by simp
next
  case (Cons e m)
  obtain k0 r0 where "e = (k0, r0)" by (cases e)
  with Cons show ?case by (cases "py_eq k0 k") simp_all
qed

lemma cache_set_keys:
  "map fst (cache_set m k r) = (if cache_get m k = None then map fst m @ [k] else map fst m)"
proof (induction m)
  case Nil
  show ?case by simp
next
  case (Cons e m)
  obtain k0 r0 where "e = (k0, r0)" by (cases e)
  with Cons show ?case by (cases "py_eq k0 k") simp_all
qed

lemma keys_differ_append:
  "keys_differ (ks @ [k]) \<longleftrightarrow> keys_differ ks \<and> (\<forall>k' \<in> set ks. \<not> py_eq k' k)"
  by (induction ks) (auto simp: list_all_iff)

lemma cache_set_keys_differ:
  "keys_differ (map fst m) \<Longrightarrow> keys_differ (map fst (cache_set m k r))"
  by (simp add: cache_set_keys keys_differ_append cache_get_None_iff)

lemma cache_set_entries:
  "(k0, r0) \<in> set (cache_set m k r) \<Longrightarrow>
     (k0, r0) \<in> set m \<or> (r0 = r \<and> (k0 = k \<or> (k0 \<in> fst ` set m \<and> py_eq k0 k)))"
  by (induction m) (auto split: if_splits)

lemma cache_get_set_hashable: "hashable k \<Longrightarrow> cache_get (cache_set m k r) k = Some r"
  by (induction m) (auto simp: py_eq_refl)

lemma cache_get_set_keeps:
  "cache_get m k \<noteq> None \<Longrightarrow> cache_get (cache_set m k' r) k \<noteq> None"
  by (induction m) auto

lemma keys_differ_lookup:
  "keys_differ (map fst m) \<Longrightarrow> (k, r) \<in> set m \<Longrightarrow> py_eq k k \<Longrightarrow> cache_get m k = Some r"
proof (induction m)
  case Nil
  then show ?case by simp
next
  case (Cons e m)
  obtain k0 r0 where e: "e = (k0, r0)" by (cases e)
  show ?case
  proof (cases "(k, r) = e")
    case True
    with e Cons.prems show ?thesis by simp
  next
    case False
    with Cons.prems have mem: "(k, r) \<in> set m" by simp
    then have "k \<in> set (map fst m)" by force
    with Cons.prems(1) e have "\<not> py_eq k0 k" by (auto simp: list_all_iff)
    moreover from Cons.IH Cons.prems(1,3) mem have "cache_get m k = Some r" by simp
    ultimately show ?thesis using e by simp
  qed
qed

lemma keys_differ_distinct:
  "keys_differ ks \<Longrightarrow> \<forall>k \<in> set ks. py_eq k k \<Longrightarrow> distinct ks"
  by (induction ks) (auto simp: list_all_iff)

text \<open>What the comprehension keeps true of the dictionary it fills.\<close>

lemma dict_by_id_inv:
  assumes "dict_by_id xs acc = Inr m"
    and "keys_differ (map fst acc)"
    and "\<forall>(k, r) \<in> set acc. hashable k \<and> r \<in> S \<and> (\<exists>k'. getitem r ''id'' = Inr k' \<and> py_eq k k')"
    and "set xs \<subseteq> S"
  shows "keys_differ (map fst m) \<and>
         (\<forall>(k, r) \<in> set m. hashable k \<and> r \<in> S \<and> (\<exists>k'. getitem r ''id'' = Inr k' \<and> py_eq k k'))"
  using assms
proof (induction xs arbitrary: acc)
  case Nil
  then show ?case by simp
next
  case (Cons x xs)
  from Cons.prems(1) obtain k where k: "getitem x ''id'' = Inr k" "hashable k"
    and rest: "dict_by_id xs (cache_set acc k x) = Inr m"
    by (auto split: sum.splits if_splits)
  have kd: "keys_differ (map fst (cache_set acc k x))"
    using Cons.prems(2) by (rule cache_set_keys_differ)
  have ent: "\<forall>(k0, r0) \<in> set (cache_set acc k x).
               hashable k0 \<and> r0 \<in> S \<and> (\<exists>k'. getitem r0 ''id'' = Inr k' \<and> py_eq k0 k')"
  proof (clarify)
    fix k0 r0 assume "(k0, r0) \<in> set (cache_set acc k x)"
    from cache_set_entries [OF this]
    consider (old) "(k0, r0) \<in> set acc" | (new) "r0 = x" "k0 = k"
      | (upd) "r0 = x" "k0 \<in> fst ` set acc" "py_eq k0 k" by blast
    then show "hashable k0 \<and> r0 \<in> S \<and> (\<exists>k'. getitem r0 ''id'' = Inr k' \<and> py_eq k0 k')"
    proof cases
      case old
      with Cons.prems(3) show ?thesis by auto
    next
      case new
      with k Cons.prems(4) show ?thesis by (simp add: py_eq_refl)
    next
      case upd
      from upd(2) Cons.prems(3) have "hashable k0" by auto
      with upd k Cons.prems(4) show ?thesis by simp
    qed
  qed
  from Cons.prems(4) have "set xs \<subseteq> S" by simp
  from Cons.IH [OF rest kd ent this] show ?case .
qed

lemma dict_by_id_keeps:
  "dict_by_id xs acc = Inr m \<Longrightarrow> cache_get acc k \<noteq> None \<Longrightarrow> cache_get m k \<noteq> None"
proof (induction xs arbitrary: acc)
  case Nil
  then show ?case by simp
next
  case (Cons x xs)
  from Cons.prems(1) obtain k' where "dict_by_id xs (cache_set acc k' x) = Inr m"
    by (auto split: sum.splits if_splits)
  moreover from Cons.prems(2) have "cache_get (cache_set acc k' x) k \<noteq> None"
    by (rule cache_get_set_keeps)
  ultimately show ?case by (rule Cons.IH)
qed

lemma dict_by_id_covers:
  "dict_by_id xs acc = Inr m \<Longrightarrow> x \<in> set xs \<Longrightarrow>
     \<exists>k. getitem x ''id'' = Inr k \<and> hashable k \<and> cache_get m k \<noteq> None"
proof (induction xs arbitrary: acc)
  case Nil
  then show ?case by simp
next
  case (Cons y ys)
  from Cons.prems(1) obtain k where k: "getitem y ''id'' = Inr k" "hashable k"
    and rest: "dict_by_id ys (cache_set acc k y) = Inr m"
    by (auto split: sum.splits if_splits)
  show ?case
  proof (cases "x = y")
    case True
    from k(2) have "cache_get (cache_set acc k y) k \<noteq> None"
      by (simp add: cache_get_set_hashable)
    from dict_by_id_keeps [OF rest this] k True show ?thesis by auto
  next
    case False
    with Cons.prems(2) have "x \<in> set ys" by simp
    from Cons.IH [OF rest this] show ?thesis .
  qed
qed

text \<open>
  Claim C9. After a refresh whose \<^verbatim>\<open>devices/list\<close> response delivered the records \<^verbatim>\<open>recs\<close>, each
  with an id: for every id of the cache, \<^verbatim>\<open>client.device(id)\<close> returns the cached record,
  which is one of the records of the response as it was parsed, carrying that id; every
  record of the response is found under its id; \<^verbatim>\<open>client.devices\<close> yields one view per
  cached id, no two of them equal; and \<^verbatim>\<open>client.device(id)\<close> raises \<^verbatim>\<open>KeyError\<close> for an id the
  cache does not hold.
\<close>

theorem refreshed_devices:
  assumes "fst (Client_request get ''devices/list'' devices_list_params c) = Inr (PDict b)"
    and "map_of b ''device'' = Some (PList recs)"
    and "dict_by_id recs [] = Inr dm"
  shows "devices_cache (snd (Client_update get c)) = dm \<and>
         (\<forall>(k, r) \<in> set dm.
            Client_device (snd (Client_update get c)) k = Inr r \<and> r \<in> set recs \<and>
            (\<exists>k'. getitem r ''id'' = Inr k' \<and> py_eq k k')) \<and>
         (\<forall>x \<in> set recs. \<exists>k r. getitem x ''id'' = Inr k \<and>
            Client_device (snd (Client_update get c)) k = Inr r) \<and>
         Client_devices (snd (Client_update get c)) = map (Device \<circ> fst) dm \<and>
         distinct (Client_devices (snd (Client_update get c))) \<and>
         keys_differ (map fst dm) \<and>
         (\<forall>k. hashable k \<and> cache_get dm k = None \<longrightarrow>
            Client_device (snd (Client_update get c)) k = Inl (KeyError k))"
proof -
  from assms(2) have "b \<noteq> []" by auto
  with assms(1,2) have d: "fst (Client_request_devices get c) = Inr (PList recs)"
    by (simp add: request_devices_fst)
  from assms(3) have cd: "comprehension_by_id (PList recs) = Inr dm"
    by (simp add: comprehension_by_id_def)
  have dc: "devices_cache (snd (Client_update get c)) = dm"
    by (rule update_devices [OF d cd])
  from dict_by_id_inv [OF assms(3), of "set recs"]
  have kd: "keys_differ (map fst dm)"
    and ent: "\<forall>(k, r) \<in> set dm. hashable k \<and> r \<in> set recs \<and>
                (\<exists>k'. getitem r ''id'' = Inr k' \<and> py_eq k k')"
    by simp_all
  have look: "\<forall>(k, r) \<in> set dm. Client_device (snd (Client_update get c)) k = Inr r"
  proof (clarify)
    fix k r assume m: "(k, r) \<in> set dm"
    with ent have h: "hashable k" by auto
    from keys_differ_lookup [OF kd m py_eq_refl [OF h]] h dc
    show "Client_device (snd (Client_update get c)) k = Inr r"
      by (simp add: Client_device_def cache_getitem_def)
  qed
  have cover: "\<forall>x \<in> set recs. \<exists>k r. getitem x ''id'' = Inr k \<and>
            Client_device (snd (Client_update get c)) k = Inr r"
  proof
    fix x assume "x \<in> set recs"
    from dict_by_id_covers [OF assms(3) this]
    obtain k r where "getitem x ''id'' = Inr k" "hashable k" "cache_get dm k = Some r" by auto
    with dc show "\<exists>k r. getitem x ''id'' = Inr k \<and>
            Client_device (snd (Client_update get c)) k = Inr r"
      by (auto simp: Client_device_def cache_getitem_def)
  qed
  have views: "Client_devices (snd (Client_update get c)) = map (Device \<circ> fst) dm"
    using dc by (simp add: Client_devices_def case_prod_unfold comp_def)
  from ent have "\<forall>k \<in> set (map fst dm). py_eq k k" by (auto simp: py_eq_refl)
  with kd have "distinct (map fst dm)" by (rule keys_differ_distinct)
  then have dis: "distinct (Client_devices (snd (Client_update get c)))"
    unfolding views by (simp add: distinct_map inj_on_def flip: map_map)
  have missing: "\<forall>k. hashable k \<and> cache_get dm k = None \<longrightarrow>
            Client_device (snd (Client_update get c)) k = Inl (KeyError k)"
    using dc by (simp add: Client_device_def cache_getitem_def)
  from dc ent look cover views dis kd missing show ?thesis by auto
qed

theorem refreshed_devices_witness:
  "fst (Client_request server_up ''devices/list'' devices_list_params Client_init)
     = Inr (PDict [(''device'', PList [lamp])]) \<and>
   map_of [(''device'', PList [lamp])] ''device'' = Some (PList [lamp]) \<and>
   dict_by_id [lamp] [] = Inr [(PStr ''1'', lamp)] \<and>
   devices_cache (snd (Client_update server_up Client_init)) = [(PStr ''1'', lamp)] \<and>
   Client_device (snd (Client_update server_up Client_init)) (PStr ''1'') = Inr lamp \<and>
   Client_devices (snd (Client_update server_up Client_init)) = [Device (PStr ''1'')] \<and>
   Client_device (snd (Client_update server_up Client_init)) (PStr ''9'')
     = Inl (KeyError (PStr ''9''))"
proof -
  have a: "fst (Client_request server_up ''devices/list'' devices_list_params Client_init)
     = Inr (PDict [(''device'', PList [lamp])])"
    by (simp add: Client_request_def request_body_def server_up_def)
  have m: "map_of [(''device'', PList [lamp])] ''device'' = Some (PList [lamp])" by simp
  have d: "dict_by_id [lamp] [] = Inr [(PStr ''1'', lamp)]" by (simp add: lamp_def)
  note t = refreshed_devices [OF a m d]
  from t have c1: "devices_cache (snd (Client_update server_up Client_init)) = [(PStr ''1'', lamp)]"
    by simp
  from t have c2: "Client_device (snd (Client_update server_up Client_init)) (PStr ''1'') = Inr lamp"
    by simp
  from t have c3: "Client_devices (snd (Client_update server_up Client_init)) = [Device (PStr ''1'')]"
    by simp
  from t have "hashable (PStr ''9'') \<and> cache_get [(PStr ''1'', lamp)] (PStr ''9'') = None \<longrightarrow>
      Client_device (snd (Client_update server_up Client_init)) (PStr ''9'')
        = Inl (KeyError (PStr ''9''))"
    by blast
  then have c4: "Client_device (snd (Client_update server_up Client_init)) (PStr ''9'')
        = Inl (KeyError (PStr ''9''))"
    by simp
  from a m d c1 c2 c3 c4 show ?thesis by simp
qed

end
